theory Spec2Isabelle
  imports Complex_Main "HOL-Library.Sublist"
begin

section \<open>Exceptions, results and effectful calls\<close>

text \<open>
  Python exceptions are values.  Only subclasses of \<open>Exception\<close> are represented, since
  every handler in the sources is \<open>except Exception\<close> (or one of its subclasses).
  \<open>UnknownValueError\<close> and \<open>RequestError\<close> are the two classes of the recognition
  library that \<open>_process_audio\<close> tells apart, \<open>AttributeError\<close> is what a call on a
  component reference that is still \<open>None\<close> (or on a method the class does not define)
  raises, \<open>QueueEmpty\<close> is \<open>queue.Empty\<close>, and \<open>Error\<close> is any other exception.
\<close>

datatype exn =
    AttributeError string
  | UnknownValueError
  | RequestError string
  | QueueEmpty
  | Error string

fun str_exn :: "exn \<Rightarrow> string" where
  "str_exn (AttributeError m) = m"
| "str_exn UnknownValueError = []"
| "str_exn (RequestError m) = m"
| "str_exn QueueEmpty = []"
| "str_exn (Error m) = m"

text \<open>
  A call runs on a state and either raises (\<open>Inl\<close>) or returns (\<open>Inr\<close>), leaving the
  state it reached in both cases.
\<close>

type_synonym ('a, 's) call = "'s \<Rightarrow> (exn + 'a) \<times> 's"

definition ret :: "'a \<Rightarrow> ('a, 's) call" where
  "ret x = (\<lambda>s. (Inr x, s))"

definition throw :: "exn \<Rightarrow> ('a, 's) call" where
  "throw e = (\<lambda>s. (Inl e, s))"

definition bnd :: "('a, 's) call \<Rightarrow> ('a \<Rightarrow> ('b, 's) call) \<Rightarrow> ('b, 's) call" where
  "bnd m f = (\<lambda>s. case m s of (Inl e, s') \<Rightarrow> (Inl e, s') | (Inr x, s') \<Rightarrow> f x s')"

definition thn :: "('a, 's) call \<Rightarrow> ('b, 's) call \<Rightarrow> ('b, 's) call" where
  "thn m n = bnd m (\<lambda>_. n)"

definition try_except :: "('a, 's) call \<Rightarrow> (exn \<Rightarrow> ('a, 's) call) \<Rightarrow> ('a, 's) call" where
  "try_except m h = (\<lambda>s. case m s of (Inl e, s') \<Rightarrow> h e s' | (Inr x, s') \<Rightarrow> (Inr x, s'))"

definition gets :: "('s \<Rightarrow> 'a) \<Rightarrow> ('a, 's) call" where
  "gets f = (\<lambda>s. (Inr (f s), s))"

definition modify :: "('s \<Rightarrow> 's) \<Rightarrow> (unit, 's) call" where
  "modify f = (\<lambda>s. (Inr (), f s))"

text \<open>
  A logger is the list of records it received.  Messages are those of the sources without
  their leading pictograph; an exception is formatted by its message, and the message of an
  \<open>AttributeError\<close> is written without its quotation marks.
\<close>

datatype level = DEBUG | INFO | WARNING | ERROR

type_synonym log_record = "level \<times> string"

type_synonym payload = "(string \<times> string) list"

section \<open>Strings as the speech engine uses them\<close>

text \<open>
  A \<open>str\<close> is a list of characters; a character stands for a code point below 256, so
  text outside Latin-1 is not represented.  \<open>is_space\<close> is \<open>str.isspace\<close> on that
  range, which is what \<open>str.strip()\<close> removes; \<open>lower\<close> is \<open>str.lower()\<close> there.
\<close>

definition is_space :: "char \<Rightarrow> bool" where
  "is_space c = (of_char c \<in> {9, 10, 11, 12, 13, 28, 29, 30, 31, 32, 133, 160 :: nat})"

definition lower_char :: "char \<Rightarrow> char" where
  "lower_char c =
     (let n = of_char c :: nat
      in if (65 \<le> n \<and> n \<le> 90) \<or> (192 \<le> n \<and> n \<le> 222 \<and> n \<noteq> 215)
         then char_of (n + 32) else c)"

definition lower :: "string \<Rightarrow> string" where
  "lower s = map lower_char s"

definition strip :: "string \<Rightarrow> string" where
  "strip s = rev (dropWhile is_space (rev (dropWhile is_space s)))"

text \<open>\<open>str_find sep s\<close> is \<open>s.find(sep)\<close>: the index of the leftmost occurrence.\<close>

fun str_find :: "string \<Rightarrow> string \<Rightarrow> nat option" where
  "str_find sep [] = (if sep = [] then Some 0 else None)"
| "str_find sep (c # cs) =
     (if prefix sep (c # cs) then Some 0 else map_option Suc (str_find sep cs))"

text \<open>\<open>str_in sub s\<close> is the operator \<open>sub in s\<close>.\<close>

definition str_in :: "string \<Rightarrow> string \<Rightarrow> bool" where
  "str_in sub s = (str_find sub s \<noteq> None)"

text \<open>
  \<open>split1 sep s\<close> is \<open>s.split(sep, 1)\<close> for a non-empty separator: the text cut at the
  leftmost occurrence, or the text alone when there is none.
\<close>

definition split1 :: "string \<Rightarrow> string \<Rightarrow> string list" where
  "split1 sep s =
     (case str_find sep s of
        None \<Rightarrow> [s]
      | Some i \<Rightarrow> [take i s, drop (i + length sep) s])"

section \<open>The speech engine\<close>

text \<open>
  A callback slot holds \<open>None\<close> or a callable; the callable is represented by what
  scheduling it on a payload does: return (\<open>None\<close>) or raise.  \<open>fired\<close> records every
  callback invocation, \<open>speech_log\<close> what the engine's logger received, and
  \<open>command_queue\<close> is the \<open>queue.Queue()\<close> of \<open>__init__\<close>, oldest item first; it is
  created without \<open>maxsize\<close>, so \<open>put\<close> always accepts.
\<close>

type_synonym callback = "payload \<Rightarrow> exn option"

record SpeechEngine =
  is_listening :: bool
  wake_word_detected :: bool
  command_queue :: "string list"
  on_wake_word :: "callback option"
  on_command :: "callback option"
  on_listening_start :: "callback option"
  on_listening_stop :: "callback option"
  fired :: "(string \<times> payload) list"
  speech_log :: "log_record list"

definition wake_words :: "string list" where
  "wake_words = [''jarvis'', ''hey jarvis'', ''ok jarvis'']"

definition new_SpeechEngine :: SpeechEngine where
  "new_SpeechEngine =
     \<lparr> is_listening = False, wake_word_detected = False, command_queue = [],
       on_wake_word = None, on_command = None,
       on_listening_start = None, on_listening_stop = None,
       fired = [], speech_log = [] \<rparr>"

definition speech_logger :: "level \<Rightarrow> string \<Rightarrow> (unit, SpeechEngine) call" where
  "speech_logger lv msg = modify (\<lambda>s. s\<lparr>speech_log := speech_log s @ [(lv, msg)]\<rparr>)"

text \<open>Invoking the callable of a slot on a payload: recorded, then its outcome.\<close>

definition fire :: "string \<Rightarrow> callback \<Rightarrow> payload \<Rightarrow> (unit, SpeechEngine) call" where
  "fire name cb p =
     thn (modify (\<lambda>s. s\<lparr>fired := fired s @ [(name, p)]\<rparr>))
         (case cb p of None \<Rightarrow> ret () | Some e \<Rightarrow> throw e)"

definition contains_wake_word :: "string \<Rightarrow> bool" where
  "contains_wake_word text = list_ex (\<lambda>wake_word. str_in wake_word text) wake_words"

fun extract_loop :: "string list \<Rightarrow> string \<Rightarrow> string option" where
  "extract_loop [] text = None"
| "extract_loop (wake_word # rest) text =
     (if str_in wake_word text
      then (let command = strip (last (split1 wake_word text))
            in if length command > 2 then Some command else extract_loop rest text)
      else extract_loop rest text)"

definition extract_command_from_wake_phrase :: "string \<Rightarrow> string option" where
  "extract_command_from_wake_phrase text = extract_loop wake_words text"

definition handle_command :: "string \<Rightarrow> (unit, SpeechEngine) call" where
  "handle_command command =
     thn (speech_logger INFO (''Command received: '' @ command))
    (thn (modify (\<lambda>s. s\<lparr>command_queue := command_queue s @ [command]\<rparr>))
         (bnd (gets on_command) (\<lambda>cb.
            case cb of
              None \<Rightarrow> ret ()
            | Some f \<Rightarrow> fire ''on_command'' f [(''command'', command)])))"

text \<open>
  \<open>_process_audio\<close>.  The audio segment is represented by what the recogniser makes of
  it: the recognised text, or the exception \<open>recognize_google\<close> raises.
\<close>

definition process_audio_try :: "exn + string \<Rightarrow> (unit, SpeechEngine) call" where
  "process_audio_try audio =
     bnd (case audio of Inl e \<Rightarrow> throw e | Inr recognized \<Rightarrow> ret (lower recognized)) (\<lambda>text.
     thn (speech_logger DEBUG (''Recognized: '' @ text))
         (if contains_wake_word text
          then
            thn (speech_logger INFO (''Wake word detected: '' @ text))
           (thn (modify (\<lambda>s. s\<lparr>wake_word_detected := True\<rparr>))
           (thn (bnd (gets on_wake_word) (\<lambda>cb.
                   case cb of
                     None \<Rightarrow> ret ()
                   | Some f \<Rightarrow> fire ''on_wake_word'' f [(''text'', text)]))
                (case extract_command_from_wake_phrase text of
                   None \<Rightarrow> ret ()
                 | Some command \<Rightarrow> if command \<noteq> [] then handle_command command else ret ())))
          else
            bnd (gets wake_word_detected) (\<lambda>armed.
              if armed
              then thn (handle_command text)
                       (modify (\<lambda>s. s\<lparr>wake_word_detected := False\<rparr>))
              else ret ())))"

definition process_audio :: "exn + string \<Rightarrow> (unit, SpeechEngine) call" where
  "process_audio audio =
     try_except (process_audio_try audio)
       (\<lambda>e. case e of
               UnknownValueError \<Rightarrow> ret ()
             | RequestError m \<Rightarrow> speech_logger ERROR (''Speech recognition service error: '' @ m)
             | _ \<Rightarrow> speech_logger ERROR (''Audio processing error: '' @ str_exn e))"

definition listen_for_commands :: "(unit, SpeechEngine) call" where
  "listen_for_commands =
     bnd (gets is_listening) (\<lambda>listening.
       if \<not> listening
       then
         thn (modify (\<lambda>s. s\<lparr>is_listening := True\<rparr>))
        (thn (speech_logger INFO ''Started listening for commands'')
             (bnd (gets on_listening_start) (\<lambda>cb.
                case cb of
                  None \<Rightarrow> ret ()
                | Some f \<Rightarrow> fire ''on_listening_start'' f [])))
       else ret ())"

definition stop_listening :: "(unit, SpeechEngine) call" where
  "stop_listening =
     bnd (gets is_listening) (\<lambda>listening.
       if listening
       then
         thn (modify (\<lambda>s. s\<lparr>is_listening := False\<rparr>))
        (thn (modify (\<lambda>s. s\<lparr>wake_word_detected := False\<rparr>))
        (thn (speech_logger INFO ''Stopped listening'')
             (bnd (gets on_listening_stop) (\<lambda>cb.
                case cb of
                  None \<Rightarrow> ret ()
                | Some f \<Rightarrow> fire ''on_listening_stop'' f []))))
       else ret ())"

text \<open>\<open>command_queue.get_nowait()\<close>: the oldest item, or \<open>queue.Empty\<close>.\<close>

definition get_nowait :: "(string, SpeechEngine) call" where
  "get_nowait =
     (\<lambda>s. case command_queue s of
             [] \<Rightarrow> (Inl QueueEmpty, s)
           | c # q \<Rightarrow> (Inr c, s\<lparr>command_queue := q\<rparr>))"

text \<open>
  The loop of \<open>get_pending_commands\<close>: while the queue is not empty, take one item and
  append it; \<open>queue.Empty\<close> breaks out of the loop.
\<close>

function pending_loop :: "string list \<Rightarrow> (string list, SpeechEngine) call" where
  "pending_loop commands s =
     (if command_queue s \<noteq> []
      then (case get_nowait s of
              (Inr c, s') \<Rightarrow> pending_loop (commands @ [c]) s'
            | (Inl QueueEmpty, s') \<Rightarrow> (Inr commands, s')
            | (Inl e, s') \<Rightarrow> (Inl e, s'))
      else (Inr commands, s))"
  by pat_completeness auto
termination
  by (relation "measure (\<lambda>(commands, s). length (command_queue s))")
     (auto simp: get_nowait_def split: list.splits)

definition get_pending_commands :: "(string list, SpeechEngine) call" where
  "get_pending_commands = pending_loop []"

text \<open>
  \<open>_audio_processing_loop\<close> runs forever; a run of it is driven by what
  \<open>audio_queue.get(timeout=1)\<close> yields in each iteration: \<open>None\<close> when the wait of one
  second ends with \<open>queue.Empty\<close> (the loop continues), or a captured segment, which goes
  to \<open>_process_audio\<close>.
\<close>

fun audio_processing_loop :: "(exn + string) option list \<Rightarrow> SpeechEngine \<Rightarrow> SpeechEngine" where
  "audio_processing_loop [] s = s"
| "audio_processing_loop (None # rest) s = audio_processing_loop rest s"
| "audio_processing_loop (Some audio # rest) s =
     audio_processing_loop rest
       (case process_audio audio s of
          (Inr _, s') \<Rightarrow> s'
        | (Inl e, s') \<Rightarrow> snd (speech_logger ERROR (''Audio processing error: '' @ str_exn e) s'))"

declare pending_loop.simps [simp del]

section \<open>The core: data and collaborators\<close>

text \<open>
  \<open>JarvisResponse\<close>: the field \<open>text\<close> is \<open>response_text\<close> here; the confidence, a
  float that the core only copies and compares with constants, is a real; the timestamp
  is a clock reading.
\<close>

record JarvisResponse =
  response_text :: string
  action :: "string option"
  data :: "payload option"
  confidence :: real
  timestamp :: nat

type_synonym entities = "(string \<times> string) list"

text \<open>
  The dictionary returned by the NLP collaborator, read with \<open>get\<close>: any of the three
  keys may be missing.
\<close>

record nlp_result =
  nlp_intent :: "string option"
  nlp_entities :: "entities option"
  nlp_confidence :: "real option"

record execution_context =
  current_time :: nat
  user_location :: string
  recent_history :: "string list"
  system_status :: payload
  user_preferences :: payload
  active_applications :: "string list"

record interaction =
  interaction_timestamp :: nat
  interaction_command :: string
  interaction_response :: string
  interaction_source :: string
  interaction_confidence :: real

datatype component = Memory | NLP | Speech | Automation | Plugins | Web

text \<open>
  The handlers of the event registry: the five methods \<open>_setup_event_handlers\<close>
  registers, and any other callable, named by a number.
\<close>

datatype handler =
    HandleVoiceCommand
  | HandleWakeWord
  | HandleSystemAlert
  | HandleAutomation
  | HandleWebCommand
  | Handler nat

text \<open>What the core was observed to call: lifecycle calls and handler invocations.\<close>

datatype event =
    InitStart component
  | InitDone component
  | ShutdownStart component
  | ShutdownDone component
  | Invoked handler payload

text \<open>
  The collaborators are not part of the sources at hand (memory manager, NLP processor,
  automation engine, plugin manager, web interface, the text-to-speech backend, the
  clock); each of their operations is a parameter: a call on the collaborators' own
  state \<open>'w\<close> that returns or raises.  \<open>component_initialize\<close> is \<open>initialize()\<close> of a
  component (\<open>load_plugins()\<close> for the plugin manager) and \<open>component_shutdown\<close> its
  \<open>shutdown()\<close>.

  An event handler is a callable from outside the registry.  \<open>run_handler\<close> is what
  awaiting it does to the collaborators' state and how it ends; \<open>handler_registers\<close> are
  the calls of \<open>register_event_handler\<close> it makes while it runs (event type and handler,
  in order), the one operation the class has for changing the registry.

  \<open>JarvisCore\<close> also refers to five methods of its own that the class does not define:
  \<open>_handle_entertainment_command\<close>, \<open>_handle_productivity_command\<close> and
  \<open>_handle_personal_command\<close> in \<open>_route_command\<close>, \<open>_handle_system_alert\<close> and
  \<open>_handle_automation\<close> in \<open>_setup_event_handlers\<close>.  They are parameters too:
  \<open>None\<close> (or \<open>False\<close>) is the class as written, where evaluating the attribute raises
  \<open>AttributeError\<close>; \<open>Some h\<close> (or \<open>True\<close>) is a class completed with the method.
\<close>

type_synonym 'w command_handler =
  "entities \<Rightarrow> execution_context \<Rightarrow> real \<Rightarrow> (JarvisResponse, 'w) call"

record 'w collaborators =
  component_initialize :: "component \<Rightarrow> (unit, 'w) call"
  component_shutdown :: "component \<Rightarrow> (unit, 'w) call"
  nlp_analyze :: "string \<Rightarrow> (nlp_result, 'w) call"
  memory_get_recent_interactions :: "nat \<Rightarrow> (string list, 'w) call"
  memory_get_user_preferences :: "(payload, 'w) call"
  memory_store_interaction :: "interaction \<Rightarrow> (unit, 'w) call"
  automation_get_active_apps :: "(string list, 'w) call"
  automation_execute_automation ::
    "string option \<Rightarrow> string option \<Rightarrow> execution_context \<Rightarrow> (payload, 'w) call"
  automation_execute_system_command :: "string option \<Rightarrow> string option \<Rightarrow> (payload, 'w) call"
  plugins_try_plugins :: "entities \<Rightarrow> execution_context \<Rightarrow> (JarvisResponse option, 'w) call"
  web_send_response :: "JarvisResponse \<Rightarrow> (unit, 'w) call"
  tts_say :: "string \<Rightarrow> (unit, 'w) call"
  run_handler :: "handler \<Rightarrow> payload \<Rightarrow> (unit, 'w) call"
  handler_registers :: "handler \<Rightarrow> payload \<Rightarrow> 'w \<Rightarrow> (string \<times> handler) list"
  now :: "'w \<Rightarrow> nat"
  strftime :: "nat \<Rightarrow> string"
  handle_entertainment_command :: "'w command_handler option"
  handle_productivity_command :: "'w command_handler option"
  handle_personal_command :: "'w command_handler option"
  has_handle_system_alert :: bool
  has_handle_automation :: bool

text \<open>
  The state of a \<open>JarvisCore\<close>.  A component reference is \<open>True\<close> once the attribute
  holds an object instead of \<open>None\<close>.  \<open>core_log\<close> is what the loggers received,
  \<open>observed\<close> the calls made so far, \<open>world\<close> the state of the collaborators.
\<close>

record 'w JarvisCore =
  speech_engine :: bool
  nlp_processor :: bool
  automation_engine :: bool
  memory_manager :: bool
  web_interface :: bool
  plugin_manager :: bool
  event_handlers :: "string \<rightharpoonup> handler list"
  is_active :: bool
  core_log :: "log_record list"
  observed :: "event list"
  world :: 'w

definition new_JarvisCore :: "'w \<Rightarrow> 'w JarvisCore" where
  "new_JarvisCore w =
     \<lparr> speech_engine = False, nlp_processor = False, automation_engine = False,
       memory_manager = False, web_interface = False, plugin_manager = False,
       event_handlers = Map.empty, is_active = False,
       core_log = [], observed = [], world = w \<rparr>"

definition logger :: "level \<Rightarrow> string \<Rightarrow> (unit, 'w JarvisCore) call" where
  "logger lv msg = modify (\<lambda>s. s\<lparr>core_log := core_log s @ [(lv, msg)]\<rparr>)"

definition observe :: "event \<Rightarrow> (unit, 'w JarvisCore) call" where
  "observe ev = modify (\<lambda>s. s\<lparr>observed := observed s @ [ev]\<rparr>)"

text \<open>A collaborator's call, run on the collaborators' part of the state.\<close>

definition ext :: "('a, 'w) call \<Rightarrow> ('a, 'w JarvisCore) call" where
  "ext m = (\<lambda>s. case m (world s) of (r, w') \<Rightarrow> (r, s\<lparr>world := w'\<rparr>))"

text \<open>
  A method call through a component reference: \<open>AttributeError\<close> while the reference
  is \<open>None\<close>.
\<close>

definition component_call ::
  "('w JarvisCore \<Rightarrow> bool) \<Rightarrow> string \<Rightarrow> ('a, 'w) call \<Rightarrow> ('a, 'w JarvisCore) call" where
  "component_call ref attr m =
     bnd (gets ref) (\<lambda>present.
       if present then ext m
       else throw (AttributeError (''NoneType object has no attribute '' @ attr)))"

definition new_response ::
  "'w collaborators \<Rightarrow> string \<Rightarrow> string option \<Rightarrow> payload option \<Rightarrow> real \<Rightarrow>
   (JarvisResponse, 'w JarvisCore) call" where
  "new_response env txt act dat conf =
     gets (\<lambda>s. \<lparr> response_text = txt, action = act, data = dat, confidence = conf,
                 timestamp = now env (world s) \<rparr>)"

section \<open>The core: lifecycle\<close>

definition register_event_handler ::
  "string \<Rightarrow> handler \<Rightarrow> 'w JarvisCore \<Rightarrow> 'w JarvisCore" where
  "register_event_handler event_type h s =
     (let registered = (case event_handlers s event_type of None \<Rightarrow> [] | Some hs \<Rightarrow> hs)
      in s\<lparr>event_handlers := (event_handlers s)(event_type \<mapsto> registered @ [h])\<rparr>)"

definition setup_event_handlers :: "'w collaborators \<Rightarrow> (unit, 'w JarvisCore) call" where
  "setup_event_handlers env =
     thn (modify (register_event_handler ''voice_command'' HandleVoiceCommand))
    (thn (modify (register_event_handler ''wake_word_detected'' HandleWakeWord))
    (thn (if has_handle_system_alert env
          then modify (register_event_handler ''system_alert'' HandleSystemAlert)
          else throw (AttributeError ''JarvisCore object has no attribute _handle_system_alert''))
    (thn (if has_handle_automation env
          then modify (register_event_handler ''automation_trigger'' HandleAutomation)
          else throw (AttributeError ''JarvisCore object has no attribute _handle_automation''))
         (modify (register_event_handler ''web_command'' HandleWebCommand)))))"

definition initialize_component :: "'w collaborators \<Rightarrow> component \<Rightarrow> (unit, 'w JarvisCore) call" where
  "initialize_component env c =
     thn (observe (InitStart c))
    (thn (ext (component_initialize env c))
         (observe (InitDone c)))"

definition initialize_try :: "'w collaborators \<Rightarrow> (unit, 'w JarvisCore) call" where
  "initialize_try env =
     thn (logger INFO ''Initializing JARVIS components...'')
    (thn (modify (\<lambda>s. s\<lparr>memory_manager := True\<rparr>))
    (thn (initialize_component env Memory)
    (thn (modify (\<lambda>s. s\<lparr>nlp_processor := True\<rparr>))
    (thn (initialize_component env NLP)
    (thn (modify (\<lambda>s. s\<lparr>speech_engine := True\<rparr>))
    (thn (initialize_component env Speech)
    (thn (modify (\<lambda>s. s\<lparr>automation_engine := True\<rparr>))
    (thn (initialize_component env Automation)
    (thn (modify (\<lambda>s. s\<lparr>plugin_manager := True\<rparr>))
    (thn (initialize_component env Plugins)
    (thn (modify (\<lambda>s. s\<lparr>web_interface := True\<rparr>))
    (thn (initialize_component env Web)
    (thn (setup_event_handlers env)
    (thn (modify (\<lambda>s. s\<lparr>is_active := True\<rparr>))
         (logger INFO ''All JARVIS components initialized'')))))))))))))))"

definition initialize :: "'w collaborators \<Rightarrow> (unit, 'w JarvisCore) call" where
  "initialize env =
     try_except (initialize_try env)
       (\<lambda>e. thn (logger ERROR (''Component initialization failed: '' @ str_exn e))
                 (throw e))"



section \<open>The core: events\<close>

text \<open>The list a type is registered with, empty when the type is not a key.\<close>

definition registered :: "'w JarvisCore \<Rightarrow> string \<Rightarrow> handler list" where
  "registered s event_type = (case event_handlers s event_type of None \<Rightarrow> [] | Some hs \<Rightarrow> hs)"

text \<open>
  \<open>await handler(data or {})\<close>: the invocation is observed, the handler's registrations
  are appended to the registry, and its effect on the collaborators and its outcome follow.
\<close>

definition call_handler ::
  "'w collaborators \<Rightarrow> handler \<Rightarrow> payload \<Rightarrow> (unit, 'w JarvisCore) call" where
  "call_handler env h d =
     thn (observe (Invoked h d))
    (bnd (gets world) (\<lambda>w.
     thn (modify (fold (\<lambda>(event_type, h'). register_event_handler event_type h')
                       (handler_registers env h d w)))
         (ext (run_handler env h d))))"

text \<open>The body of the loop of \<open>emit_event\<close>: the call in its own \<open>try\<close>.\<close>

definition guarded_call ::
  "'w collaborators \<Rightarrow> handler \<Rightarrow> payload \<Rightarrow> (unit, 'w JarvisCore) call" where
  "guarded_call env h d =
     try_except (call_handler env h d)
       (\<lambda>e. logger ERROR (''Event handler error: '' @ str_exn e))"

text \<open>
  The \<open>for\<close> loop runs over the list object of the registry itself, by position: a
  handler appended to that list while the loop runs is reached by the same loop.  With
  handlers that keep registering on the emitted type the loop does not end, so it is a
  partial function: \<open>None\<close> is a loop that does not return.
\<close>

partial_function (option) emit_loop ::
  "'w collaborators \<Rightarrow> string \<Rightarrow> payload \<Rightarrow> nat \<Rightarrow> 'w JarvisCore \<Rightarrow>
   ((exn + unit) \<times> 'w JarvisCore) option" where
  "emit_loop env event_type d i s =
     (if i < length (registered s event_type)
      then (case guarded_call env (registered s event_type ! i) d s of
              (Inl e, s') \<Rightarrow> Some (Inl e, s')
            | (Inr u, s') \<Rightarrow> emit_loop env event_type d (Suc i) s')
      else Some (Inr (), s))"

definition emit_event ::
  "'w collaborators \<Rightarrow> string \<Rightarrow> payload option \<Rightarrow> 'w JarvisCore \<Rightarrow>
   ((exn + unit) \<times> 'w JarvisCore) option" where
  "emit_event env event_type dat s =
     (case event_handlers s event_type of
        None \<Rightarrow> Some (Inr (), s)
      | Some hs \<Rightarrow>
          emit_loop env event_type
            (case dat of None \<Rightarrow> [] | Some d \<Rightarrow> if d = [] then [] else d) 0 s)"

section \<open>The core: the command pipeline\<close>

definition get_user_location :: "(string, 'w JarvisCore) call" where
  "get_user_location = ret ''Unknown''"

definition get_system_status :: "(payload, 'w JarvisCore) call" where
  "get_system_status =
     ret [(''cpu_usage'', ''0.0''), (''memory_usage'', ''0.0''), (''disk_usage'', ''0.0''),
          (''network_status'', ''connected'')]"

definition build_context ::
  "'w collaborators \<Rightarrow> string \<Rightarrow> string option \<Rightarrow> entities \<Rightarrow>
   (execution_context, 'w JarvisCore) call" where
  "build_context env command intent ents =
     bnd (gets (\<lambda>s. now env (world s))) (\<lambda>t.
     bnd get_user_location (\<lambda>location.
     bnd (component_call memory_manager ''get_recent_interactions''
            (memory_get_recent_interactions env 5)) (\<lambda>history.
     bnd get_system_status (\<lambda>status.
     bnd (component_call memory_manager ''get_user_preferences''
            (memory_get_user_preferences env)) (\<lambda>preferences.
     bnd (component_call automation_engine ''get_active_apps''
            (automation_get_active_apps env)) (\<lambda>apps.
     ret \<lparr> current_time = t, user_location = location, recent_history = history,
           system_status = status, user_preferences = preferences,
           active_applications = apps \<rparr>))))))"

text \<open>\<open>d.get(key, default)\<close> on a dictionary of strings, and \<open>f"{x}"\<close> of an optional string.\<close>

definition get_or :: "payload \<Rightarrow> string \<Rightarrow> string \<Rightarrow> string" where
  "get_or d key dflt = (case map_of d key of None \<Rightarrow> dflt | Some v \<Rightarrow> v)"

definition format_opt :: "string option \<Rightarrow> string" where
  "format_opt x = (case x of None \<Rightarrow> ''None'' | Some v \<Rightarrow> v)"

definition handle_automation_command ::
  "'w collaborators \<Rightarrow> entities \<Rightarrow> execution_context \<Rightarrow> real \<Rightarrow>
   (JarvisResponse, 'w JarvisCore) call" where
  "handle_automation_command env ents ctx conf =
     bnd (component_call automation_engine ''execute_automation''
            (automation_execute_automation env (map_of ents ''action'') (map_of ents ''target'') ctx))
       (\<lambda>result.
          new_response env (get_or result ''message'' ''Automation executed successfully'')
            (Some ''automation'') (Some result) conf)"

definition get_weather_info :: "string \<Rightarrow> (payload, 'w JarvisCore) call" where
  "get_weather_info location =
     ret [(''text'', ''Weather information for '' @ location @ '' is not available right now.'')]"

definition get_news_info :: "string option \<Rightarrow> (payload, 'w JarvisCore) call" where
  "get_news_info topic =
     ret [(''text'', ''Latest news about '' @ format_opt topic @ '' is not available right now.'')]"

definition get_time_info :: "'w collaborators \<Rightarrow> string option \<Rightarrow> (payload, 'w JarvisCore) call" where
  "get_time_info env timezone =
     bnd (gets (\<lambda>s. now env (world s))) (\<lambda>t.
       ret [(''text'', ''The current time is '' @ strftime env t)])"

definition get_general_info :: "string option \<Rightarrow> (payload, 'w JarvisCore) call" where
  "get_general_info query =
     ret [(''text'', ''I don't have specific information about '' @ format_opt query
                     @ '' right now.'')]"

definition handle_information_command ::
  "'w collaborators \<Rightarrow> entities \<Rightarrow> execution_context \<Rightarrow> real \<Rightarrow>
   (JarvisResponse, 'w JarvisCore) call" where
  "handle_information_command env ents ctx conf =
     (let query_type = map_of ents ''query_type'';
          subject = map_of ents ''subject''
      in bnd (if query_type = Some ''weather''
              then get_weather_info
                     (case subject of
                        None \<Rightarrow> user_location ctx
                      | Some sub \<Rightarrow> if sub \<noteq> [] then sub else user_location ctx)
              else if query_type = Some ''news'' then get_news_info subject
              else if query_type = Some ''time'' then get_time_info env subject
              else get_general_info subject)
           (\<lambda>info.
              new_response env (get_or info ''text'' ''Here's what I found'')
                (Some ''information'') (Some info) conf))"

definition handle_system_command ::
  "'w collaborators \<Rightarrow> entities \<Rightarrow> execution_context \<Rightarrow> real \<Rightarrow>
   (JarvisResponse, 'w JarvisCore) call" where
  "handle_system_command env ents ctx conf =
     bnd (component_call automation_engine ''execute_system_command''
            (automation_execute_system_command env (map_of ents ''action'') (map_of ents ''target'')))
       (\<lambda>result.
          new_response env (get_or result ''message'' ''System command executed'')
            (Some ''system_control'') (Some result) conf)"

definition handle_unknown_command ::
  "'w collaborators \<Rightarrow> entities \<Rightarrow> execution_context \<Rightarrow> real \<Rightarrow>
   (JarvisResponse, 'w JarvisCore) call" where
  "handle_unknown_command env ents ctx conf =
     bnd (component_call plugin_manager ''try_plugins'' (plugins_try_plugins env ents ctx))
       (\<lambda>plugin_response.
          case plugin_response of
            Some response \<Rightarrow> ret response
          | None \<Rightarrow>
              new_response env
                ''I'm not sure how to help with that. Could you rephrase your request?''
                None None 0.1)"

text \<open>
  \<open>_route_command\<close> first builds the dictionary of handlers, which evaluates the six
  bound methods in order, and then looks the intent up, with \<open>_handle_unknown_command\<close>
  as the default.
\<close>

definition route_command ::
  "'w collaborators \<Rightarrow> string option \<Rightarrow> entities \<Rightarrow> execution_context \<Rightarrow> real \<Rightarrow>
   (JarvisResponse, 'w JarvisCore) call" where
  "route_command env intent ents ctx conf =
     (case handle_entertainment_command env of
        None \<Rightarrow> throw (AttributeError
                  ''JarvisCore object has no attribute _handle_entertainment_command'')
      | Some entertainment \<Rightarrow>
     (case handle_productivity_command env of
        None \<Rightarrow> throw (AttributeError
                  ''JarvisCore object has no attribute _handle_productivity_command'')
      | Some productivity \<Rightarrow>
     (case handle_personal_command env of
        None \<Rightarrow> throw (AttributeError
                  ''JarvisCore object has no attribute _handle_personal_command'')
      | Some personal \<Rightarrow>
          (let command_handlers =
                 [(''automation'', handle_automation_command env),
                  (''information'', handle_information_command env),
                  (''system_control'', handle_system_command env),
                  (''entertainment'', \<lambda>e c f. ext (entertainment e c f)),
                  (''productivity'', \<lambda>e c f. ext (productivity e c f)),
                  (''personal'', \<lambda>e c f. ext (personal e c f))];
               handler =
                 (case intent of
                    None \<Rightarrow> handle_unknown_command env
                  | Some name \<Rightarrow>
                      (case map_of command_handlers name of
                         None \<Rightarrow> handle_unknown_command env
                       | Some h \<Rightarrow> h))
           in handler ents ctx conf))))"

definition store_interaction ::
  "'w collaborators \<Rightarrow> string \<Rightarrow> JarvisResponse \<Rightarrow> string \<Rightarrow> (unit, 'w JarvisCore) call" where
  "store_interaction env command response source =
     bnd (gets (\<lambda>s. now env (world s))) (\<lambda>t.
       component_call memory_manager ''store_interaction''
         (memory_store_interaction env
            \<lparr> interaction_timestamp = t, interaction_command = command,
              interaction_response = response_text response, interaction_source = source,
              interaction_confidence = confidence response \<rparr>))"

text \<open>
  \<open>SpeechEngine.speak\<close> with \<open>interrupt=False\<close>: whatever the text-to-speech backend
  raises is caught and logged inside \<open>speak\<close>.  The lines of the speech engine's logger
  are kept in \<open>core_log\<close> with the others.
\<close>

definition speak :: "'w collaborators \<Rightarrow> string \<Rightarrow> (unit, 'w JarvisCore) call" where
  "speak env txt =
     try_except
       (thn (logger INFO (''Speaking: '' @ take 50 txt @ ''...''))
            (ext (tts_say env txt)))
       (\<lambda>e. logger ERROR (''TTS error: '' @ str_exn e))"

definition deliver_response ::
  "'w collaborators \<Rightarrow> JarvisResponse \<Rightarrow> string \<Rightarrow> (unit, 'w JarvisCore) call" where
  "deliver_response env response source =
     (if source = ''voice''
      then bnd (gets speech_engine) (\<lambda>present.
             if present then speak env (response_text response)
             else throw (AttributeError ''NoneType object has no attribute speak''))
      else if source = ''web''
      then component_call web_interface ''send_response'' (web_send_response env response)
      else ret ())"

text \<open>Steps 1 to 3 of \<open>process_command\<close>: analysis, context, routing.\<close>

definition compute_response ::
  "'w collaborators \<Rightarrow> string \<Rightarrow> (JarvisResponse, 'w JarvisCore) call" where
  "compute_response env command =
     bnd (component_call nlp_processor ''analyze'' (nlp_analyze env command)) (\<lambda>result.
       (let intent = nlp_intent result;
            ents = (case nlp_entities result of None \<Rightarrow> [] | Some e \<Rightarrow> e);
            conf = (case nlp_confidence result of None \<Rightarrow> 0 | Some c \<Rightarrow> c)
        in bnd (build_context env command intent ents) (\<lambda>ctx.
             route_command env intent ents ctx conf)))"

text \<open>
  The first log line of \<open>process_command\<close>, with the command between single
  quotation marks (character 39).
\<close>

definition processing_message :: "string \<Rightarrow> string \<Rightarrow> string" where
  "processing_message command source =
     ''Processing command: '' @ [CHR 0x27] @ command @ [CHR 0x27] @ '' from '' @ source"

text \<open>The body of the \<open>try\<close> of \<open>process_command\<close>.\<close>

definition process_command_try ::
  "'w collaborators \<Rightarrow> string \<Rightarrow> string \<Rightarrow> (JarvisResponse, 'w JarvisCore) call" where
  "process_command_try env command source =
     thn (logger INFO (processing_message command source))
    (bnd (compute_response env command) (\<lambda>response.
     thn (store_interaction env command response source)
    (thn (deliver_response env response source)
         (ret response))))"

definition error_text :: string where
  "error_text = ''I encountered an error processing that command. Please try again.''"

definition process_command ::
  "'w collaborators \<Rightarrow> string \<Rightarrow> string \<Rightarrow> (JarvisResponse, 'w JarvisCore) call" where
  "process_command env command source =
     try_except (process_command_try env command source)
       (\<lambda>e. thn (logger ERROR (''Command processing error: '' @ str_exn e))
                 (new_response env error_text None None 0.0))"

section \<open>Concrete collaborators\<close>

text \<open>
  Collaborators for the examples: every call returns at once, the NLP processor answers
  every command with the intent \<open>xyz\<close>, which no handler is registered for, no plugin
  claims a command, and the five methods the class leaves undefined are supplied.
  \<open>started_core\<close> is a core after \<open>initialize\<close> with these collaborators.
\<close>

definition example_response :: JarvisResponse where
  "example_response =
     \<lparr> response_text = ''Done'', action = Some ''example'', data = None, confidence = 0.9,
       timestamp = 0 \<rparr>"

definition example_collaborators :: "'w collaborators" where
  "example_collaborators =
     \<lparr> component_initialize = (\<lambda>c. ret ()),
       component_shutdown = (\<lambda>c. ret ()),
       nlp_analyze = (\<lambda>command. ret \<lparr> nlp_intent = Some ''xyz'', nlp_entities = None,
                                         nlp_confidence = Some 0.9 \<rparr>),
       memory_get_recent_interactions = (\<lambda>n. ret []),
       memory_get_user_preferences = ret [],
       memory_store_interaction = (\<lambda>i. ret ()),
       automation_get_active_apps = ret [],
       automation_execute_automation = (\<lambda>a t c. ret []),
       automation_execute_system_command = (\<lambda>a t. ret []),
       plugins_try_plugins = (\<lambda>e c. ret None),
       web_send_response = (\<lambda>r. ret ()),
       tts_say = (\<lambda>t. ret ()),
       run_handler = (\<lambda>h d. ret ()),
       handler_registers = (\<lambda>h d w. []),
       now = (\<lambda>w. 0),
       strftime = (\<lambda>t. ''12:00 PM''),
       handle_entertainment_command = Some (\<lambda>e c f. ret example_response),
       handle_productivity_command = Some (\<lambda>e c f. ret example_response),
       handle_personal_command = Some (\<lambda>e c f. ret example_response),
       has_handle_system_alert = True,
       has_handle_automation = True \<rparr>"

definition started_core :: "unit JarvisCore" where
  "started_core = snd (initialize example_collaborators (new_JarvisCore ()))"



text \<open>
  Handlers that record their runs: the collaborators' state is the list of handlers run
  so far.  \<open>Handler 2\<close> raises; \<open>Handler 1\<close> registers \<open>Handler 4\<close> on
  \<open>voice_command\<close> whenever it runs.  \<open>recording_core\<close> has three handlers on
  \<open>voice_command\<close> and two on \<open>system_alert\<close>.
\<close>

definition recording_collaborators :: "handler list collaborators" where
  "recording_collaborators =
     example_collaborators
       \<lparr> run_handler :=
           (\<lambda>h d w. (if h = Handler 2 then Inl (Error ''boom'') else Inr (), w @ [h])),
         handler_registers :=
           (\<lambda>h d w. if h = Handler 1 then [(''voice_command'', Handler 4)] else []) \<rparr>"

definition recording_core :: "handler list JarvisCore" where
  "recording_core =
     register_event_handler ''system_alert'' (Handler 3)
    (register_event_handler ''system_alert'' (Handler 2)
    (register_event_handler ''voice_command'' (Handler 3)
    (register_event_handler ''voice_command'' (Handler 2)
    (register_event_handler ''voice_command'' (Handler 1) (new_JarvisCore [])))))"

section \<open>Properties of the speech engine\<close>

lemmas call_defs = ret_def throw_def bnd_def thn_def try_except_def gets_def modify_def

subsection \<open>Leftmost occurrences and stripping\<close>

lemma str_find_Some_decomp:
  "str_find sep s = Some i \<Longrightarrow> s = take i s @ sep @ drop (i + length sep) s"
proof (induction s arbitrary: i)
  case Nil
  then show ?case by (simp split: if_splits)
next
  case (Cons c cs)
  show ?case
  proof (cases "prefix sep (c # cs)")
    case True
    then have "c # cs = sep @ drop (length sep) (c # cs)"
      by (metis append_eq_conv_conj prefix_def)
    moreover from True Cons.prems have "i = 0" by simp
    ultimately show ?thesis by simp
  next
    case False
    with Cons.prems obtain k where k: "str_find sep cs = Some k" "i = Suc k" by auto
    from Cons.IH[OF k(1)] k(2) show ?thesis by simp
  qed
qed

lemma str_find_first:
  "str_find sep s = Some i \<Longrightarrow> j < i \<Longrightarrow> \<not> prefix sep (drop j s)"
proof (induction s arbitrary: i j)
  case Nil
  then show ?case by (simp split: if_splits)
next
  case (Cons c cs)
  from Cons.prems have np: "\<not> prefix sep (c # cs)" by (auto split: if_splits)
  with Cons.prems obtain k where k: "str_find sep cs = Some k" "i = Suc k" by auto
  show ?case
  proof (cases j)
    case 0
    with np show ?thesis by simp
  next
    case (Suc j')
    with Cons.prems k have "j' < k" by simp
    from Cons.IH[OF k(1) this] Suc show ?thesis by simp
  qed
qed

lemma str_find_occurs:
  "\<exists>i. str_find sep (a @ sep @ b) = Some i \<and> i \<le> length a"
proof (induction a)
  case Nil
  have "prefix sep (sep @ b)" by simp
  then show ?case by (cases "sep @ b") (simp_all del: same_prefix_nil)
next
  case (Cons c a)
  then show ?case by auto
qed

lemma str_find_None: "str_find sep s = None \<Longrightarrow> s \<noteq> a @ sep @ b"
  using str_find_occurs[of sep a b] by auto

lemma length_dropWhile_prefix:
  "length (dropWhile P p) \<le> length (dropWhile P (p @ r))"
proof (cases "\<forall>x\<in>set p. P x")
  case True
  then have "length (dropWhile P p) = 0" by simp
  then show ?thesis by linarith
next
  case False
  then obtain x where "x \<in> set p" "\<not> P x" by blast
  then have "dropWhile P (p @ r) = dropWhile P p @ r" by (rule dropWhile_append1)
  then show ?thesis by simp
qed

lemma length_strip_Cons: "length (strip s) \<le> length (strip (c # s))"
proof (cases "is_space c")
  case True
  then show ?thesis by (simp add: strip_def)
next
  case False
  have "length (dropWhile is_space (rev (dropWhile is_space s))) \<le> length (dropWhile is_space (rev s))"
  proof -
    have "rev s = rev (dropWhile is_space s) @ rev (takeWhile is_space s)"
      by (metis rev_append takeWhile_dropWhile_id)
    then show ?thesis using length_dropWhile_prefix by metis
  qed
  also have "\<dots> \<le> length (dropWhile is_space (rev s @ [c]))"
    by (rule length_dropWhile_prefix)
  finally show ?thesis using False by (simp add: strip_def)
qed

lemma length_strip_drop: "length (strip (drop n s)) \<le> length (strip s)"
proof (induction s arbitrary: n)
  case Nil
  then show ?case by simp
next
  case (Cons c s)
  show ?case
  proof (cases n)
    case 0
    then show ?thesis by simp
  next
    case (Suc m)
    have "length (strip (drop m s)) \<le> length (strip s)" by (rule Cons.IH)
    also have "\<dots> \<le> length (strip (c # s))" by (rule length_strip_Cons)
    finally show ?thesis using Suc by simp
  qed
qed

lemma residual_longer_phrase:
  assumes "str_find (p @ w) s = Some i"
  shows "\<exists>j. str_find w s = Some j \<and> j + length w \<le> i + length (p @ w)"
proof -
  from str_find_Some_decomp[OF assms]
  have "s = (take i s @ p) @ w @ drop (i + length (p @ w)) s" by simp
  with str_find_occurs[of w "take i s @ p" "drop (i + length (p @ w)) s"]
  obtain j where j: "str_find w s = Some j" "j \<le> length (take i s @ p)" by auto
  then have "j \<le> i + length p" by simp
  with j show ?thesis by auto
qed

lemma extract_step_longer:
  assumes "str_find w s = Some j" "\<not> 2 < length (strip (drop (j + length w) s))"
      and "str_find (p @ w) s = Some i"
  shows "\<not> 2 < length (strip (drop (i + length (p @ w)) s))"
proof -
  from residual_longer_phrase[OF assms(3)] assms(1)
  have le: "j + length w \<le> i + length (p @ w)" by auto
  then obtain d where d: "i + length (p @ w) = d + (j + length w)"
    by (metis le_Suc_ex add.commute)
  have "drop (i + length (p @ w)) s = drop d (drop (j + length w) s)"
    by (simp only: d drop_drop)
  then have "length (strip (drop (i + length (p @ w)) s)) \<le> length (strip (drop (j + length w) s))"
    by (simp only: length_strip_drop)
  with assms(2) show ?thesis by simp
qed

lemma last_split1:
  "last (split1 sep s) = (case str_find sep s of None \<Rightarrow> s | Some i \<Rightarrow> drop (i + length sep) s)"
  by (simp add: split1_def split: option.splits)

lemma extract_loop_absent:
  "str_find w s = None \<Longrightarrow> extract_loop (map (\<lambda>p. p @ w) ps) s = None"
proof (induction ps)
  case Nil
  show ?case by simp
next
  case (Cons p ps)
  have "str_find (p @ w) s = None"
  proof (cases "str_find (p @ w) s")
    case (Some i)
    from residual_longer_phrase[OF Some] Cons.prems show ?thesis by simp
  qed simp
  with Cons show ?case by (simp add: str_in_def)
qed

lemma extract_loop_short:
  assumes "str_find w s = Some j" "\<not> 2 < length (strip (drop (j + length w) s))"
  shows "extract_loop (map (\<lambda>p. p @ w) ps) s = None"
proof (induction ps)
  case Nil
  show ?case by simp
next
  case (Cons p ps)
  show ?case
  proof (cases "str_find (p @ w) s")
    case None
    with Cons show ?thesis by (simp add: str_in_def)
  next
    case (Some i)
    from extract_step_longer[OF assms Some]
    have "\<not> 2 < length (strip (last (split1 (p @ w) s)))"
      by (simp add: last_split1 Some)
    with Cons show ?thesis by (simp add: Let_def)
  qed
qed

lemma extract_loop_rule:
  "extract_loop (w # map (\<lambda>p. p @ w) ps) s =
     (case str_find w s of
        None \<Rightarrow> None
      | Some i \<Rightarrow>
          (let residual = strip (drop (i + length w) s)
           in if 2 < length residual then Some residual else None))"
proof (cases "str_find w s")
  case None
  then show ?thesis by (simp add: str_in_def extract_loop_absent)
next
  case (Some j)
  then show ?thesis
    by (simp add: str_in_def last_split1 Let_def extract_loop_short)
qed

lemma wake_words_shape:
  "wake_words = ''jarvis'' # map (\<lambda>p. p @ ''jarvis'') [''hey '', ''ok '']"
  by (simp add: wake_words_def)

lemma extract_command_jarvis:
  "extract_command_from_wake_phrase utt =
     (case str_find ''jarvis'' utt of
        None \<Rightarrow> None
      | Some i \<Rightarrow>
          (let residual = strip (drop (i + 6) utt)
           in if 2 < length residual then Some residual else None))"
proof -
  have "length ''jarvis'' = 6" by simp
  then show ?thesis
    unfolding extract_command_from_wake_phrase_def wake_words_shape extract_loop_rule
    by (simp only:)
qed

lemma contains_wake_word_jarvis: "contains_wake_word utt = str_in ''jarvis'' utt"
proof -
  have "str_find (p @ ''jarvis'') utt \<noteq> None \<Longrightarrow> str_find ''jarvis'' utt \<noteq> None" for p
    using residual_longer_phrase[of p "''jarvis''" utt] by auto
  from this[of "''hey ''"] this[of "''ok ''"] show ?thesis
    by (auto simp add: contains_wake_word_def wake_words_def str_in_def)
qed

subsection \<open>Wake-phrase extraction\<close>

text \<open>
  Claim C10.  Every listed wake phrase ends in \<open>jarvis\<close>, so a text contains a wake
  phrase exactly when it contains \<open>jarvis\<close>, and the extraction is decided at the
  leftmost occurrence of \<open>jarvis\<close>: the command is the text after that occurrence with
  surrounding whitespace removed, returned only when it is longer than 2 characters, and
  no command otherwise.  The index found is that of the leftmost occurrence.
\<close>

theorem extract_command_rule:
  "extract_command_from_wake_phrase utt =
     (case str_find ''jarvis'' utt of
        None \<Rightarrow> None
      | Some i \<Rightarrow>
          (let residual = strip (drop (i + 6) utt)
           in if 2 < length residual then Some residual else None))
   \<and> contains_wake_word utt = str_in ''jarvis'' utt
   \<and> (\<forall>i. str_find ''jarvis'' utt = Some i \<longrightarrow>
          utt = take i utt @ ''jarvis'' @ drop (i + 6) utt
          \<and> (\<forall>j<i. \<not> prefix ''jarvis'' (drop j utt)))"
proof -
  have len: "length ''jarvis'' = 6" by simp
  have "utt = take i utt @ ''jarvis'' @ drop (i + 6) utt"
    if "str_find ''jarvis'' utt = Some i" for i
    using str_find_Some_decomp[OF that] unfolding len .
  then show ?thesis
    using extract_command_jarvis[of utt] contains_wake_word_jarvis[of utt]
      str_find_first[of "''jarvis''" utt]
    by blast
qed

text \<open>
  At \<open>ok jarvis hi\<close> the leftmost \<open>jarvis\<close> is at index 3 and the residual \<open>hi\<close> has
  two characters: no command.  At \<open>hey jarvis what time is it\<close> the command is
  \<open>what time is it\<close>.
\<close>

theorem extract_command_rule_witness:
  "str_find ''jarvis'' ''ok jarvis hi'' = Some 3
   \<and> extract_command_from_wake_phrase ''ok jarvis hi'' = None
   \<and> contains_wake_word ''ok jarvis hi''
   \<and> ''ok jarvis hi'' = take 3 ''ok jarvis hi'' @ ''jarvis'' @ drop (3 + 6) ''ok jarvis hi''
   \<and> \<not> prefix ''jarvis'' (drop 2 ''ok jarvis hi'')"
proof -
  have h: "str_find ''jarvis'' ''ok jarvis hi'' = Some 3" by simp
  show ?thesis
    using h extract_command_rule[of "''ok jarvis hi''"]
    by (simp add: strip_def is_space_def str_in_def)
qed

subsection \<open>Wake phrase and command in one utterance\<close>

text \<open>
  Claim C1, evaluated on the code.  A fresh engine that hears
  \<open>hey jarvis what time is it\<close> enqueues the single command \<open>what time is it\<close>, but
  \<open>wake_word_detected\<close> is still set afterwards: the branch that handles a wake phrase
  never clears it, unlike the branch for the follow-up utterance.  The next utterance
  without a wake phrase, here \<open>thank you\<close>, is therefore enqueued as a command too.
\<close>

theorem wake_plus_command_stays_armed:
  "fst (process_audio (Inr ''hey jarvis what time is it'') new_SpeechEngine) = Inr ()
   \<and> command_queue (snd (process_audio (Inr ''hey jarvis what time is it'') new_SpeechEngine))
       = [''what time is it'']
   \<and> wake_word_detected
        (snd (process_audio (Inr ''hey jarvis what time is it'') new_SpeechEngine)) = True
   \<and> command_queue
        (audio_processing_loop
           [Some (Inr ''hey jarvis what time is it''), Some (Inr ''thank you'')]
           new_SpeechEngine)
       = [''what time is it'', ''thank you'']"
  by code_simp

subsection \<open>No timeout on the armed state\<close>

lemma processing_loop_idle: "audio_processing_loop (replicate n None) s = s"
  by (induction n) simp_all

lemma armed_after_wake_phrase:
  "wake_word_detected (snd (process_audio (Inr ''hey jarvis'') new_SpeechEngine))
   \<and> command_queue (snd (process_audio (Inr ''hey jarvis'') new_SpeechEngine)) = []"
  by code_simp

text \<open>
  Claim C5 as stated fails: after \<open>hey jarvis\<close> alone the engine is armed, and there is
  no number of one-second waits on the empty audio queue after which it is idle again.
\<close>

theorem armed_never_times_out:
  "\<not> (\<exists>n. \<not> wake_word_detected
              (audio_processing_loop (replicate n None)
                 (snd (process_audio (Inr ''hey jarvis'') new_SpeechEngine))))"
  using armed_after_wake_phrase by (simp add: processing_loop_idle)

text \<open>
  Claim C5, amended.  While no utterance arrives, the waits of the processing loop leave
  the whole engine state as it is, however many there are: an armed detector stays armed,
  and nothing is enqueued.
\<close>

theorem idle_waits_change_nothing:
  "audio_processing_loop (replicate n None) s = s
   \<and> wake_word_detected (audio_processing_loop (replicate n None) s) = wake_word_detected s
   \<and> command_queue (audio_processing_loop (replicate n None) s) = command_queue s"
  by (simp add: processing_loop_idle)

subsection \<open>The command queue\<close>

lemma handle_command_queue:
  "command_queue (snd (handle_command c s)) = command_queue s @ [c]"
  by (simp add: handle_command_def call_defs speech_logger_def fire_def split: option.splits)

lemma pending_loop_all:
  "pending_loop acc s = (Inr (acc @ command_queue s), s\<lparr>command_queue := []\<rparr>)"
proof (induction "command_queue s" arbitrary: acc s)
  case Nil
  then show ?case by (simp add: pending_loop.simps[of acc s])
next
  case (Cons c q)
  from Cons.hyps(2) have q: "command_queue s = c # q" by simp
  have "q = command_queue (s\<lparr>command_queue := q\<rparr>)" by simp
  from Cons.hyps(1)[OF this, of "acc @ [c]"] q show ?case
    by (simp add: pending_loop.simps[of acc s] get_nowait_def)
qed

lemma fold_handle_command_queue:
  "command_queue (fold (\<lambda>c s. snd (handle_command c s)) cs s) = command_queue s @ cs"
  by (induction cs arbitrary: s) (simp_all add: handle_command_queue)

text \<open>
  Claim C6 as stated fails: the queue has no capacity.  No bound holds for the length of
  the queue after handling a list of commands on a fresh engine.
\<close>

theorem command_queue_unbounded:
  "\<not> (\<exists>cap. \<forall>cs. length (command_queue
                             (fold (\<lambda>c s. snd (handle_command c s)) cs new_SpeechEngine))
                   \<le> cap)"
proof
  assume "\<exists>cap. \<forall>cs. length (command_queue
                             (fold (\<lambda>c s. snd (handle_command c s)) cs new_SpeechEngine))
                   \<le> cap"
  then obtain cap where
    "\<forall>cs. length (command_queue
                    (fold (\<lambda>c s. snd (handle_command c s)) cs new_SpeechEngine)) \<le> cap" ..
  then have "length (command_queue
                       (fold (\<lambda>c s. snd (handle_command c s)) (replicate (Suc cap) ''go'')
                          new_SpeechEngine)) \<le> cap" ..
  then have "length (command_queue new_SpeechEngine @ replicate (Suc cap) ''go'') \<le> cap"
    by (simp only: fold_handle_command_queue)
  then show False by simp
qed

text \<open>
  Claim C6, amended.  The command queue is an unbounded FIFO: handling a command appends
  it at the tail whatever the length of the queue (nothing is rejected), and
  \<open>get_pending_commands\<close> returns every queued command, oldest first, and leaves the
  queue empty; so the commands handled on a fresh engine come back in the order in which
  they were accepted.
\<close>

theorem command_queue_fifo:
  "command_queue (snd (handle_command c s)) = command_queue s @ [c]
   \<and> get_pending_commands s = (Inr (command_queue s), s\<lparr>command_queue := []\<rparr>)
   \<and> fst (get_pending_commands
            (fold (\<lambda>c s. snd (handle_command c s)) cs new_SpeechEngine)) = Inr cs"
  by (simp add: handle_command_queue get_pending_commands_def pending_loop_all
        fold_handle_command_queue new_SpeechEngine_def)

subsection \<open>Stopping twice\<close>

lemma stop_listening_not_listening:
  "\<not> is_listening s \<Longrightarrow> stop_listening s = (Inr (), s)"
  by (simp add: stop_listening_def call_defs)

lemma stop_listening_clears: "\<not> is_listening (snd (stop_listening s))"
  by (simp add: stop_listening_def call_defs speech_logger_def fire_def split: option.splits)

lemma stop_listening_fired:
  "is_listening s \<Longrightarrow> on_listening_stop s = Some f \<Longrightarrow>
   fired (snd (stop_listening s)) = fired s @ [(''on_listening_stop'', [])]"
  by (simp add: stop_listening_def call_defs speech_logger_def fire_def split: option.splits)

text \<open>
  Claim C9.  \<open>stop_listening\<close> on an engine that is not listening returns without
  changing anything; after any call the engine is not listening, so a second call is such
  a no-op; and on a listening engine with a \<open>on_listening_stop\<close> callback installed, two
  consecutive calls invoke that callback exactly once.
\<close>

theorem stop_listening_idempotent:
  "(\<not> is_listening s \<longrightarrow> stop_listening s = (Inr (), s))
   \<and> stop_listening (snd (stop_listening s)) = (Inr (), snd (stop_listening s))
   \<and> \<not> is_listening (snd (stop_listening s))
   \<and> (is_listening s \<and> on_listening_stop s \<noteq> None \<longrightarrow>
        fired (snd (stop_listening (snd (stop_listening s))))
          = fired s @ [(''on_listening_stop'', [])])"
  using stop_listening_not_listening[of "snd (stop_listening s)"] stop_listening_clears[of s]
    stop_listening_fired[of s] stop_listening_not_listening[of s]
  by auto

text \<open>
  On a listening engine with a callback installed, two stops fire it once; on a fresh
  engine, which is not listening, a stop changes nothing.
\<close>

theorem stop_listening_idempotent_witness:
  "is_listening (new_SpeechEngine\<lparr>is_listening := True, on_listening_stop := Some (\<lambda>p. None)\<rparr>)
   \<and> on_listening_stop
        (new_SpeechEngine\<lparr>is_listening := True, on_listening_stop := Some (\<lambda>p. None)\<rparr>) \<noteq> None
   \<and> fired (snd (stop_listening (snd (stop_listening
        (new_SpeechEngine\<lparr>is_listening := True, on_listening_stop := Some (\<lambda>p. None)\<rparr>)))))
       = [(''on_listening_stop'', [])]
   \<and> \<not> is_listening new_SpeechEngine
   \<and> stop_listening new_SpeechEngine = (Inr (), new_SpeechEngine)"
proof -
  let ?s = "new_SpeechEngine\<lparr>is_listening := True, on_listening_stop := Some (\<lambda>p. None)\<rparr>"
  have h: "is_listening ?s \<and> on_listening_stop ?s \<noteq> None" by simp
  have n: "\<not> is_listening new_SpeechEngine" by (simp add: new_SpeechEngine_def)
  have f: "fired ?s = []" by (simp add: new_SpeechEngine_def)
  from stop_listening_idempotent[of ?s] h
  have a: "fired (snd (stop_listening (snd (stop_listening ?s))))
             = fired ?s @ [(''on_listening_stop'', [])]"
    by blast
  from stop_listening_idempotent[of new_SpeechEngine] n
  have b: "stop_listening new_SpeechEngine = (Inr (), new_SpeechEngine)" by blast
  from a have "fired (snd (stop_listening (snd (stop_listening ?s))))
             = [(''on_listening_stop'', [])]"
    unfolding f by simp
  with h n b show ?thesis by blast
qed

section \<open>Properties of the core\<close>

lemmas core_defs = logger_def observe_def ext_def component_call_def new_response_def



lemma started_core_fields:
  "speech_engine started_core" "nlp_processor started_core" "automation_engine started_core"
  "memory_manager started_core" "web_interface started_core" "plugin_manager started_core"
  "is_active started_core" "world started_core = ()"
  "observed started_core =
     [InitStart Memory, InitDone Memory, InitStart NLP, InitDone NLP,
      InitStart Speech, InitDone Speech, InitStart Automation, InitDone Automation,
      InitStart Plugins, InitDone Plugins, InitStart Web, InitDone Web]"
  "core_log started_core =
     [(INFO, ''Initializing JARVIS components...''), (INFO, ''All JARVIS components initialized'')]"
  "fst (initialize example_collaborators (new_JarvisCore ())) = Inr ()"
  by (simp_all add: started_core_def initialize_def initialize_try_def initialize_component_def
        setup_event_handlers_def example_collaborators_def new_JarvisCore_def call_defs core_defs
        register_event_handler_def)

subsection \<open>The command pipeline\<close>

lemma process_command_cases:
  "process_command env command source s =
     (case process_command_try env command source s of
        (Inr r, s') \<Rightarrow> (Inr r, s')
      | (Inl e, s') \<Rightarrow>
          (Inr \<lparr> response_text = error_text, action = None, data = None, confidence = 0,
                 timestamp = now env (world s') \<rparr>,
           s'\<lparr>core_log := core_log s' @ [(ERROR, ''Command processing error: '' @ str_exn e)]\<rparr>))"
  by (simp add: process_command_def call_defs logger_def new_response_def
      split: prod.splits sum.splits)

lemma process_command_try_cases:
  "process_command_try env command source s =
     (case compute_response env command
             (snd (logger INFO (processing_message command source) s)) of
        (Inl e, s1) \<Rightarrow> (Inl e, s1)
      | (Inr r, s1) \<Rightarrow>
          (case store_interaction env command r source s1 of
             (Inl e, s2) \<Rightarrow> (Inl e, s2)
           | (Inr u, s2) \<Rightarrow>
               (case deliver_response env r source s2 of
                  (Inl e, s3) \<Rightarrow> (Inl e, s3)
                | (Inr v, s3) \<Rightarrow> (Inr r, s3))))"
  by (simp add: process_command_try_def call_defs logger_def split: prod.splits sum.splits)

lemma speak_returns: "\<exists>s'. speak env msg s = (Inr (), s')"
  by (cases "tts_say env msg (world s)"; cases "fst (tts_say env msg (world s))")
     (auto simp add: speak_def call_defs logger_def ext_def split: prod.splits sum.splits)

lemma deliver_voice_returns:
  "speech_engine s \<Longrightarrow> \<exists>s'. deliver_response env r ''voice'' s = (Inr (), s')"
  using speak_returns[of env "response_text r" s]
  by (simp add: deliver_response_def bnd_def gets_def)

text \<open>
  The class as written: building the handler dictionary fails on the first undefined
  method, so routing raises for every intent and the pipeline answers every command with
  the error response.
\<close>

lemma route_command_as_written:
  "handle_entertainment_command env = None \<Longrightarrow>
   route_command env intent ents ctx conf s =
     (Inl (AttributeError ''JarvisCore object has no attribute _handle_entertainment_command''), s)"
  by (simp add: route_command_def throw_def)

lemma compute_response_as_written:
  "handle_entertainment_command env = None \<Longrightarrow> \<exists>e. fst (compute_response env command s) = Inl e"
  by (auto simp add: compute_response_def bnd_def Let_def route_command_as_written
      split: prod.splits sum.splits)

lemma process_command_as_written:
  assumes "handle_entertainment_command env = None"
  shows "\<exists>r. fst (process_command env command source s) = Inr r
             \<and> response_text r = error_text \<and> confidence r = 0"
proof -
  let ?s0 = "snd (logger INFO (processing_message command source) s)"
  from compute_response_as_written[OF assms, of command ?s0]
  obtain e where "fst (compute_response env command ?s0) = Inl e" ..
  then obtain s1 where "compute_response env command ?s0 = (Inl e, s1)"
    by (cases "compute_response env command ?s0") simp
  then show ?thesis
    by (simp add: process_command_cases process_command_try_cases)
qed

lemma setup_event_handlers_as_written:
  "\<not> has_handle_system_alert env \<Longrightarrow>
   fst (setup_event_handlers env s) =
     Inl (AttributeError ''JarvisCore object has no attribute _handle_system_alert'')"
  by (simp add: setup_event_handlers_def call_defs)

text \<open>
  Claim C3.  \<open>process_command\<close> always returns a response and never raises.  When the
  body of its \<open>try\<close> raises, the exception is logged and the response returned is the
  fixed error text with confidence 0.0 and no action or data; when the body returns a
  response, that response is returned.
\<close>

theorem process_command_never_raises:
  "(\<exists>r. fst (process_command env command source s) = Inr r)
   \<and> (\<forall>e s'. process_command_try env command source s = (Inl e, s') \<longrightarrow>
         process_command env command source s =
           (Inr \<lparr> response_text = error_text, action = None, data = None, confidence = 0.0,
                  timestamp = now env (world s') \<rparr>,
            s'\<lparr>core_log := core_log s' @ [(ERROR, ''Command processing error: '' @ str_exn e)]\<rparr>))
   \<and> (\<forall>r s'. process_command_try env command source s = (Inr r, s') \<longrightarrow>
         process_command env command source s = (Inr r, s'))"
  by (auto simp add: process_command_cases split: prod.splits sum.splits)

text \<open>With an NLP processor that raises, the call returns the error response.\<close>

theorem process_command_never_raises_witness:
  "fst (process_command_try
          (example_collaborators\<lparr>nlp_analyze := (\<lambda>c. throw (Error ''nlp down''))\<rparr>)
          ''lights'' ''voice'' started_core) = Inl (Error ''nlp down'')
   \<and> fst (process_command
          (example_collaborators\<lparr>nlp_analyze := (\<lambda>c. throw (Error ''nlp down''))\<rparr>)
          ''lights'' ''voice'' started_core)
       = Inr \<lparr> response_text = error_text, action = None, data = None, confidence = 0.0,
               timestamp = 0 \<rparr>
   \<and> last (core_log (snd (process_command
          (example_collaborators\<lparr>nlp_analyze := (\<lambda>c. throw (Error ''nlp down''))\<rparr>)
          ''lights'' ''voice'' started_core)))
       = (ERROR, ''Command processing error: nlp down'')"
proof -
  let ?env = "example_collaborators\<lparr>nlp_analyze := (\<lambda>c. throw (Error ''nlp down''))\<rparr>"
  have h: "fst (process_command_try ?env ''lights'' ''voice'' started_core) = Inl (Error ''nlp down'')"
    by (simp add: process_command_try_cases compute_response_def component_call_def
          started_core_fields call_defs logger_def ext_def)
  then have "process_command_try ?env ''lights'' ''voice'' started_core
               = (Inl (Error ''nlp down''),
                  snd (process_command_try ?env ''lights'' ''voice'' started_core))"
    by (metis prod.collapse)
  with process_command_never_raises[of ?env "''lights''" "''voice''" started_core]
  have "process_command ?env ''lights'' ''voice'' started_core =
           (Inr \<lparr> response_text = error_text, action = None, data = None, confidence = 0.0,
                  timestamp = now ?env (world (snd (process_command_try ?env ''lights'' ''voice'' started_core))) \<rparr>,
            (snd (process_command_try ?env ''lights'' ''voice'' started_core))
              \<lparr>core_log := core_log (snd (process_command_try ?env ''lights'' ''voice'' started_core))
                             @ [(ERROR, ''Command processing error: '' @ str_exn (Error ''nlp down''))]\<rparr>)"
    by blast
  with h show ?thesis by (simp add: example_collaborators_def)
qed

subsection \<open>Unknown intents\<close>



subsection \<open>Events\<close>

lemma registered_register:
  "registered (register_event_handler t' h' s) t
     = (if t = t' then registered s t @ [h'] else registered s t)"
  by (simp add: registered_def register_event_handler_def Let_def)

lemma register_frame:
  "observed (register_event_handler t h s) = observed s"
  "world (register_event_handler t h s) = world s"
  "core_log (register_event_handler t h s) = core_log s"
  by (simp_all add: register_event_handler_def Let_def)

lemma fold_register_frame:
  "observed (fold (\<lambda>(t, h'). register_event_handler t h') rs s) = observed s"
  "world (fold (\<lambda>(t, h'). register_event_handler t h') rs s) = world s"
  "core_log (fold (\<lambda>(t, h'). register_event_handler t h') rs s) = core_log s"
  by (induction rs arbitrary: s) (simp_all add: register_frame split: prod.splits)

lemma registered_fold_register:
  "registered (fold (\<lambda>(t, h'). register_event_handler t h') rs s) t
     = registered s t @ map snd (filter (\<lambda>r. fst r = t) rs)"
  by (induction rs arbitrary: s) (auto simp add: registered_register split: prod.splits)

lemma event_handlers_fold_register:
  "t \<notin> fst ` set rs \<Longrightarrow>
   event_handlers (fold (\<lambda>(t, h'). register_event_handler t h') rs s) t = event_handlers s t"
  by (induction rs arbitrary: s) (auto simp add: register_event_handler_def Let_def split: prod.splits)

lemma guarded_call_explicit:
  "guarded_call env h d s =
     (case run_handler env h d (world s) of
        (Inl e, w') \<Rightarrow>
          (Inr (),
           (fold (\<lambda>(t, h'). register_event_handler t h') (handler_registers env h d (world s))
              (s\<lparr>observed := observed s @ [Invoked h d]\<rparr>))
             \<lparr>world := w',
              core_log := core_log s @ [(ERROR, ''Event handler error: '' @ str_exn e)]\<rparr>)
      | (Inr u, w') \<Rightarrow>
          (Inr (),
           (fold (\<lambda>(t, h'). register_event_handler t h') (handler_registers env h d (world s))
              (s\<lparr>observed := observed s @ [Invoked h d]\<rparr>))
             \<lparr>world := w'\<rparr>))"
  by (cases "run_handler env h d (world s)"; cases "fst (run_handler env h d (world s))")
     (simp_all add: guarded_call_def call_handler_def call_defs observe_def logger_def ext_def
        fold_register_frame split: prod.splits sum.splits)


lemma registered_update:
  "registered (s\<lparr>world := w\<rparr>) t = registered s t"
  "registered (s\<lparr>core_log := l\<rparr>) t = registered s t"
  "registered (s\<lparr>observed := ob\<rparr>) t = registered s t"
  by (simp_all add: registered_def)

lemma guarded_call_returns:
  "fst (guarded_call env h d s) = Inr ()"
  "observed (snd (guarded_call env h d s)) = observed s @ [Invoked h d]"
  "registered (snd (guarded_call env h d s)) t
     = registered s t @ map snd (filter (\<lambda>r. fst r = t) (handler_registers env h d (world s)))"
  by (simp_all add: guarded_call_explicit registered_fold_register fold_register_frame
        registered_update split: prod.splits sum.splits)

lemma guarded_call_collapse:
  "guarded_call env h d s = (Inr (), snd (guarded_call env h d s))"
  using guarded_call_returns(1)[of env h d s] by (metis prod.collapse)

lemma emit_loop_returns:
  assumes "emit_loop env t d i s = Some y"
  shows "fst y = Inr ()
         \<and> prefix (registered s t) (registered (snd y) t)
         \<and> observed (snd y) = observed s @ map (\<lambda>h. Invoked h d) (drop i (registered (snd y) t))"
proof (rule emit_loop.raw_induct
         [where P = "\<lambda>env t d i s y. fst y = Inr ()
            \<and> prefix (registered s t) (registered (snd y) t)
            \<and> observed (snd y)
                = observed s @ map (\<lambda>h. Invoked h d) (drop i (registered (snd y) t))",
          OF _ assms])
  fix loop :: "'a collaborators \<Rightarrow> string \<Rightarrow> payload \<Rightarrow> nat \<Rightarrow> 'a JarvisCore \<Rightarrow>
               ((exn + unit) \<times> 'a JarvisCore) option"
    and env t d i s y
  assume ih: "\<And>env t d i s y. loop env t d i s = Some y \<Longrightarrow>
                fst y = Inr ()
                \<and> prefix (registered s t) (registered (snd y) t)
                \<and> observed (snd y)
                    = observed s @ map (\<lambda>h. Invoked h d) (drop i (registered (snd y) t))"
    and body: "(if i < length (registered s t)
                then case guarded_call env (registered s t ! i) d s of
                       (Inl e, s') \<Rightarrow> Some (Inl e, s')
                     | (Inr u, s') \<Rightarrow> loop env t d (Suc i) s'
                else Some (Inr (), s)) = Some y"
  show "fst y = Inr ()
        \<and> prefix (registered s t) (registered (snd y) t)
        \<and> observed (snd y) = observed s @ map (\<lambda>h. Invoked h d) (drop i (registered (snd y) t))"
  proof (cases "i < length (registered s t)")
    case False
    with body have "y = (Inr (), s)" by simp
    with False show ?thesis by simp
  next
    case True
    let ?s1 = "snd (guarded_call env (registered s t ! i) d s)"
    obtain s1 where g: "guarded_call env (registered s t ! i) d s = (Inr (), s1)"
      using guarded_call_collapse[of env "registered s t ! i" d s] by blast
    then have s1: "s1 = ?s1" by simp
    from True body g have "loop env t d (Suc i) s1 = Some y" by simp
    then have "loop env t d (Suc i) ?s1 = Some y" unfolding s1 .
    from ih[OF this]
    have ih1: "fst y = Inr ()" and ih2: "prefix (registered ?s1 t) (registered (snd y) t)"
      and ih3: "observed (snd y)
            = observed ?s1 @ map (\<lambda>h. Invoked h d) (drop (Suc i) (registered (snd y) t))"
      by blast+
    have p1: "prefix (registered s t) (registered ?s1 t)"
      by (simp add: guarded_call_returns(3))
    with ih2 have p: "prefix (registered s t) (registered (snd y) t)"
      by (meson prefix_order.trans)
    then obtain zs where zs: "registered (snd y) t = registered s t @ zs"
      by (auto simp: prefix_def)
    with True have nth: "registered (snd y) t ! i = registered s t ! i"
      by (simp add: nth_append)
    from zs True have "i < length (registered (snd y) t)" by simp
    then have "drop i (registered (snd y) t)
                 = registered (snd y) t ! i # drop (Suc i) (registered (snd y) t)"
      by (simp add: Cons_nth_drop_Suc)
    with ih1 ih3 p nth show ?thesis
      by (simp add: guarded_call_returns(2))
  qed
qed

lemma emit_loop_stable:
  assumes noreg: "\<forall>h p w. t \<notin> fst ` set (handler_registers env h p w)"
  shows "i \<le> length (registered s t) \<Longrightarrow>
         emit_loop env t d i s
           = Some (Inr (), fold (\<lambda>h s. snd (guarded_call env h d s)) (drop i (registered s t)) s)"
proof (induction "length (registered s t) - i" arbitrary: i s)
  case 0
  then have "i = length (registered s t)" by simp
  then show ?case by (simp add: emit_loop.simps)
next
  case (Suc n)
  then have lt: "i < length (registered s t)" by simp
  let ?h = "registered s t ! i"
  let ?s1 = "snd (guarded_call env ?h d s)"
  from noreg have "filter (\<lambda>r. fst r = t) (handler_registers env ?h d (world s)) = []"
    by (auto simp add: filter_empty_conv)
  then have same: "registered ?s1 t = registered s t"
    by (simp add: guarded_call_returns(3))
  from Suc(2) lt same have "n = length (registered ?s1 t) - Suc i" "Suc i \<le> length (registered ?s1 t)"
    by simp_all
  from Suc(1)[OF this]
  have "emit_loop env t d (Suc i) ?s1
          = Some (Inr (), fold (\<lambda>h s. snd (guarded_call env h d s))
                            (drop (Suc i) (registered s t)) ?s1)"
    by (simp add: same)
  moreover have "emit_loop env t d i s = emit_loop env t d (Suc i) ?s1"
  proof -
    obtain s1 where g: "guarded_call env ?h d s = (Inr (), s1)"
      using guarded_call_collapse[of env ?h d s] by blast
    then have s1: "s1 = ?s1" by simp
    from lt g have "emit_loop env t d i s = emit_loop env t d (Suc i) s1"
      by (subst emit_loop.simps) simp
    then show ?thesis unfolding s1 .
  qed
  moreover have "drop i (registered s t) = ?h # drop (Suc i) (registered s t)"
    using lt by (simp add: Cons_nth_drop_Suc)
  ultimately show ?case by simp
qed

lemma fold_guarded_observed:
  "observed (fold (\<lambda>h s. snd (guarded_call env h d s)) hs s)
     = observed s @ map (\<lambda>h. Invoked h d) hs"
  by (induction hs arbitrary: s) (simp_all add: guarded_call_returns(2))

lemma payload_or_empty:
  "(case dat of None \<Rightarrow> [] | Some d \<Rightarrow> if d = [] then [] else d)
     = (case dat of None \<Rightarrow> [] | Some d \<Rightarrow> d)"
  by (simp split: option.splits)

lemma registered_twice:
  "registered (register_event_handler t h (register_event_handler t h s)) t
     = registered s t @ [h, h]"
  by (simp add: registered_register)

text \<open>
  Claim C4.  One guarded call runs the handler on the collaborators' state, records its
  registrations, and returns whatever the handler does; when the handler raises, the
  exception is logged and not raised again.  \<open>emit_event\<close> never raises: when it
  returns, it returns normally, and the handlers it invoked are exactly the handlers
  registered for the type when it returns, in registration order, those registered before
  the call first.  When no handler registers on the emitted type, \<open>emit_event\<close> does
  return, and its effect is that of the guarded calls of the registered handlers, one after
  the other in registration order, so a handler that raises does not stop the later ones.
  On a type that is not registered the call changes nothing.  A handler registered twice
  is in the list twice, after the handlers registered before it, and so is invoked twice.
\<close>

theorem emit_event_isolates_handlers:
  "guarded_call env h d s =
     (case run_handler env h d (world s) of
        (Inl e, w') \<Rightarrow>
          (Inr (),
           (fold (\<lambda>(t, h'). register_event_handler t h') (handler_registers env h d (world s))
              (s\<lparr>observed := observed s @ [Invoked h d]\<rparr>))
             \<lparr>world := w',
              core_log := core_log s @ [(ERROR, ''Event handler error: '' @ str_exn e)]\<rparr>)
      | (Inr u, w') \<Rightarrow>
          (Inr (),
           (fold (\<lambda>(t, h'). register_event_handler t h') (handler_registers env h d (world s))
              (s\<lparr>observed := observed s @ [Invoked h d]\<rparr>))
             \<lparr>world := w'\<rparr>))
   \<and> (\<forall>r s'. emit_event env t dat s = Some (r, s') \<longrightarrow>
         r = Inr ()
         \<and> prefix (registered s t) (registered s' t)
         \<and> observed s' = observed s
              @ map (\<lambda>h. Invoked h (case dat of None \<Rightarrow> [] | Some d \<Rightarrow> d)) (registered s' t))
   \<and> ((\<forall>h p w. t \<notin> fst ` set (handler_registers env h p w)) \<longrightarrow>
         emit_event env t dat s
           = Some (Inr (),
                   fold (\<lambda>h s. snd (guarded_call env h (case dat of None \<Rightarrow> [] | Some d \<Rightarrow> d) s))
                        (registered s t) s))
   \<and> (event_handlers s t = None \<longrightarrow> emit_event env t dat s = Some (Inr (), s))
   \<and> registered (register_event_handler t h (register_event_handler t h s)) t
        = registered s t @ [h, h]"
proof (intro conjI allI impI)
  show "guarded_call env h d s =
     (case run_handler env h d (world s) of
        (Inl e, w') \<Rightarrow>
          (Inr (),
           (fold (\<lambda>(t, h'). register_event_handler t h') (handler_registers env h d (world s))
              (s\<lparr>observed := observed s @ [Invoked h d]\<rparr>))
             \<lparr>world := w',
              core_log := core_log s @ [(ERROR, ''Event handler error: '' @ str_exn e)]\<rparr>)
      | (Inr u, w') \<Rightarrow>
          (Inr (),
           (fold (\<lambda>(t, h'). register_event_handler t h') (handler_registers env h d (world s))
              (s\<lparr>observed := observed s @ [Invoked h d]\<rparr>))
             \<lparr>world := w'\<rparr>))"
    by (rule guarded_call_explicit)
next
  fix r s' assume e: "emit_event env t dat s = Some (r, s')"
  have "r = Inr ()
         \<and> prefix (registered s t) (registered s' t)
         \<and> observed s' = observed s
              @ map (\<lambda>h. Invoked h (case dat of None \<Rightarrow> [] | Some d \<Rightarrow> d)) (registered s' t)"
  proof (cases "event_handlers s t")
    case None
    with e show ?thesis by (simp add: emit_event_def registered_def)
  next
    case (Some hs)
    with e have "emit_loop env t (case dat of None \<Rightarrow> [] | Some d \<Rightarrow> d) 0 s = Some (r, s')"
      by (simp add: emit_event_def payload_or_empty)
    from emit_loop_returns[OF this] show ?thesis by simp
  qed
  then show "r = Inr ()" "prefix (registered s t) (registered s' t)"
    "observed s' = observed s
              @ map (\<lambda>h. Invoked h (case dat of None \<Rightarrow> [] | Some d \<Rightarrow> d)) (registered s' t)"
    by blast+
next
  assume noreg: "\<forall>h p w. t \<notin> fst ` set (handler_registers env h p w)"
  show "emit_event env t dat s
           = Some (Inr (),
                   fold (\<lambda>h s. snd (guarded_call env h (case dat of None \<Rightarrow> [] | Some d \<Rightarrow> d) s))
                        (registered s t) s)"
  proof (cases "event_handlers s t")
    case None
    then show ?thesis by (simp add: emit_event_def registered_def)
  next
    case (Some hs)
    with emit_loop_stable[OF noreg, of 0 s "case dat of None \<Rightarrow> [] | Some d \<Rightarrow> d"]
    show ?thesis by (simp add: emit_event_def payload_or_empty)
  qed
next
  assume "event_handlers s t = None"
  then show "emit_event env t dat s = Some (Inr (), s)" by (simp add: emit_event_def)
next
  show "registered (register_event_handler t h (register_event_handler t h s)) t
        = registered s t @ [h, h]"
    by (rule registered_twice)
qed


lemma emit_loop_step:
  "i < length (registered s t) \<Longrightarrow>
   emit_loop env t d i s = emit_loop env t d (Suc i) (snd (guarded_call env (registered s t ! i) d s))"
proof -
  assume lt: "i < length (registered s t)"
  obtain s1 where g: "guarded_call env (registered s t ! i) d s = (Inr (), s1)"
    using guarded_call_collapse[of env "registered s t ! i" d s] by blast
  then have s1: "s1 = snd (guarded_call env (registered s t ! i) d s)" by simp
  from lt g have "emit_loop env t d i s = emit_loop env t d (Suc i) s1"
    by (subst emit_loop.simps) simp
  then show ?thesis unfolding s1 .
qed

lemma emit_loop_done:
  "\<not> i < length (registered s t) \<Longrightarrow> emit_loop env t d i s = Some (Inr (), s)"
  by (subst emit_loop.simps) simp

lemma recording_core_fields:
  "event_handlers recording_core ''voice_command'' = Some [Handler 1, Handler 2, Handler 3]"
  "event_handlers recording_core ''system_alert'' = Some [Handler 2, Handler 3]"
  "event_handlers recording_core ''web_command'' = None"
  "registered recording_core ''voice_command'' = [Handler 1, Handler 2, Handler 3]"
  "registered recording_core ''system_alert'' = [Handler 2, Handler 3]"
  "observed recording_core = []" "world recording_core = []" "core_log recording_core = []"
  by (simp_all add: recording_core_def registered_def register_event_handler_def
        new_JarvisCore_def)

lemma recording_step_state:
  "world (snd (guarded_call recording_collaborators h d s)) = world s @ [h]"
  "core_log (snd (guarded_call recording_collaborators h d s))
     = core_log s @ (if h = Handler 2 then [(ERROR, ''Event handler error: boom'')] else [])"
  by (simp_all add: guarded_call_explicit fold_register_frame recording_collaborators_def)

lemma recording_step_registered:
  "registered (snd (guarded_call recording_collaborators h d s)) t
     = registered s t @ (if h = Handler 1 \<and> t = ''voice_command'' then [Handler 4] else [])"
  by (simp add: guarded_call_returns(3) recording_collaborators_def)

lemmas recording_step = recording_step_state recording_step_registered

text \<open>
  On \<open>system_alert\<close> the second of two handlers is reached although the first raises,
  and the failure is logged.  On \<open>voice_command\<close> the first handler registers a fourth
  one, which the same call invokes after the third.  Nothing is registered on
  \<open>web_command\<close>.
\<close>

theorem emit_event_isolates_handlers_witness:
  "(\<forall>h p w. ''system_alert'' \<notin> fst ` set (handler_registers recording_collaborators h p w))
   \<and> map_option (\<lambda>(r, s'). (r, observed s', world s', core_log s'))
        (emit_event recording_collaborators ''system_alert'' None recording_core)
       = Some (Inr (), [Invoked (Handler 2) [], Invoked (Handler 3) []],
               [Handler 2, Handler 3], [(ERROR, ''Event handler error: boom'')])
   \<and> map_option (\<lambda>(r, s'). (r, observed s', world s', core_log s', registered s' ''voice_command''))
        (emit_event recording_collaborators ''voice_command'' None recording_core)
       = Some (Inr (),
               [Invoked (Handler 1) [], Invoked (Handler 2) [], Invoked (Handler 3) [],
                Invoked (Handler 4) []],
               [Handler 1, Handler 2, Handler 3, Handler 4],
               [(ERROR, ''Event handler error: boom'')],
               [Handler 1, Handler 2, Handler 3, Handler 4])
   \<and> event_handlers recording_core ''web_command'' = None
   \<and> emit_event recording_collaborators ''web_command'' None recording_core
       = Some (Inr (), recording_core)"
proof -
  have n: "\<forall>h p w. ''system_alert'' \<notin> fst ` set (handler_registers recording_collaborators h p w)"
  proof (intro allI)
    fix h p w
    show "''system_alert'' \<notin> fst ` set (handler_registers recording_collaborators h p w)"
      by (cases "h = Handler 1") (simp_all add: recording_collaborators_def)
  qed
  note ev = recording_step guarded_call_returns(2) recording_core_fields
  from emit_event_isolates_handlers[where env = recording_collaborators and t = "''system_alert''" and dat = None
              and s = recording_core] n
  have "emit_event recording_collaborators ''system_alert'' None recording_core
          = Some (Inr (),
                  fold (\<lambda>h s. snd (guarded_call recording_collaborators h
                                       (case None of None \<Rightarrow> [] | Some d \<Rightarrow> d) s))
                       (registered recording_core ''system_alert'') recording_core)"
    by blast
  then have a: "map_option (\<lambda>(r, s'). (r, observed s', world s', core_log s'))
        (emit_event recording_collaborators ''system_alert'' None recording_core)
       = Some (Inr (), [Invoked (Handler 2) [], Invoked (Handler 3) []],
               [Handler 2, Handler 3], [(ERROR, ''Event handler error: boom'')])"
    by (simp add: ev)
  have b: "map_option (\<lambda>(r, s'). (r, observed s', world s', core_log s', registered s' ''voice_command''))
        (emit_event recording_collaborators ''voice_command'' None recording_core)
       = Some (Inr (),
               [Invoked (Handler 1) [], Invoked (Handler 2) [], Invoked (Handler 3) [],
                Invoked (Handler 4) []],
               [Handler 1, Handler 2, Handler 3, Handler 4],
               [(ERROR, ''Event handler error: boom'')],
               [Handler 1, Handler 2, Handler 3, Handler 4])"
    by (simp add: emit_event_def emit_loop_step emit_loop_done ev)
  have c: "event_handlers recording_core ''web_command'' = None"
    by (simp add: recording_core_fields)
  from emit_event_isolates_handlers[where env = recording_collaborators and t = "''web_command''" and dat = None
              and s = recording_core] c
  have d: "emit_event recording_collaborators ''web_command'' None recording_core
       = Some (Inr (), recording_core)"
    by blast
  from n a b c d show ?thesis by blast
qed

subsection \<open>Initialization and shutdown order\<close>













end
